theory Spec2Isabelle
  imports Complex_Main "HOL-Library.Word"
begin

section \<open>NumPy arrays as the notebook uses them\<close>

text \<open>
  The notebook \<^verbatim>\<open>examples/coregistration/Coregistration.ipynb\<close> defines two pieces of
  code of its own: the class \<^verbatim>\<open>MaxCCPredicate\<close> and the function \<^verbatim>\<open>make_gif\<close>.
  Both work on NumPy arrays.  An array is its shape and its elements in row-major (C)
  order; element \<open>[i, j, k]\<close> of an array of shape \<open>(w, h, c)\<close> is the element at
  offset \<open>(i * h + j) * c + k\<close>.
\<close>

text \<open>The exceptions that occur; \<open>OtherError\<close> stands for any other exception of a library.\<close>

datatype py_error = ValueError | IndexError | ZeroDivisionError | OtherError string

record 'a ndarray =
  shape :: "nat list"
  data :: "'a list"

definition well_formed :: "'a ndarray \<Rightarrow> bool" where
  "well_formed a = (length (data a) = prod_list (shape a))"

text \<open>
  \<^verbatim>\<open>np.sum(a)\<close> with no axis: the sum of all elements.  The elements of a cloud mask
  are integers (a boolean mask counts as 0 and 1), and NumPy adds them in a 64-bit
  integer accumulator that wraps around without raising: the result is the sum modulo
  \<open>2 ^ 64\<close>, read as a signed number.
\<close>

definition np_sum :: "int ndarray \<Rightarrow> int" where
  "np_sum a = sint (sum_list (map word_of_int (data a)) :: 64 word)"

text \<open>The result of a floating-point division: a finite number, an infinity or NaN.\<close>

datatype np_float = Finite real | PosInf | NegInf | NaN

text \<open>
  \<^verbatim>\<open>np.sum(img_cm) / (w * h)\<close>: NumPy's true division of an integer scalar by a Python
  integer.  Both operands are converted to doubles and the doubles are divided.  The
  division does not raise on a zero divisor: \<open>0 / 0\<close> is NaN and \<open>s / 0\<close> is an infinity
  with the sign of \<open>s\<close> (a \<^verbatim>\<open>RuntimeWarning\<close> is printed).  The rounding of a real
  number to a double is the parameter \<open>fl\<close>; it is applied to each operand and to the
  quotient of the two doubles.
\<close>

definition true_divide :: "(real \<Rightarrow> real) \<Rightarrow> int \<Rightarrow> nat \<Rightarrow> np_float" where
  "true_divide fl s n =
     (if n = 0 then (if s = 0 then NaN else if 0 < s then PosInf else NegInf)
      else Finite (fl (fl (real_of_int s) / fl (real n))))"

text \<open>\<^verbatim>\<open>cc <= maxcc\<close> for a finite threshold: every comparison with NaN is false.\<close>

fun float_le :: "np_float \<Rightarrow> real \<Rightarrow> bool" where
  "float_le (Finite x) m = (x \<le> m)"
| "float_le PosInf m = False"
| "float_le NegInf m = True"
| "float_le NaN m = False"

section \<open>MaxCCPredicate\<close>

text \<open>
  \<^verbatim>\<open>
  class MaxCCPredicate:
      def __init__(self, maxcc):
          self.maxcc = maxcc

      def __call__(self, img_cm):
          w, h, _ = img_cm.shape
          cc = np.sum(img_cm) / (w * h)
          return cc <= self.maxcc
  \<close>
  Unpacking the shape into three names raises \<^verbatim>\<open>ValueError\<close> unless the array has
  exactly three dimensions.
\<close>

record MaxCCPredicate =
  maxcc :: real

definition MaxCCPredicate_init :: "real \<Rightarrow> MaxCCPredicate" where
  "MaxCCPredicate_init m = \<lparr>maxcc = m\<rparr>"

definition MaxCCPredicate_call ::
  "(real \<Rightarrow> real) \<Rightarrow> MaxCCPredicate \<Rightarrow> int ndarray \<Rightarrow> py_error + bool" where
  "MaxCCPredicate_call fl self img_cm =
     (case shape img_cm of
        [w, h, _] \<Rightarrow>
          (let cc = true_divide fl (np_sum img_cm) (w * h)
           in Inr (float_le cc (maxcc self)))
      | _ \<Rightarrow> Inl ValueError)"

text \<open>
  The yardstick the predicate is measured against; the predicate itself never computes
  it.  The sum of all elements as a mathematical integer, and the cloud coverage of one
  channel \<open>k\<close> of a mask of shape \<open>(w, h, c)\<close>: the sum of the elements \<open>[i, j, k]\<close> over
  all pixels, divided by the number \<open>w * h\<close> of pixels.
\<close>

definition element_sum :: "int ndarray \<Rightarrow> int" where
  "element_sum a = sum_list (data a)"

definition channel_sum :: "int ndarray \<Rightarrow> nat \<Rightarrow> int" where
  "channel_sum a k =
     (case shape a of
        [w, h, c] \<Rightarrow> (\<Sum>i\<leftarrow>[0..<w]. \<Sum>j\<leftarrow>[0..<h]. data a ! ((i * h + j) * c + k))
      | _ \<Rightarrow> 0)"

definition channel_coverage :: "int ndarray \<Rightarrow> nat \<Rightarrow> real" where
  "channel_coverage a k =
     (case shape a of
        [w, h, c] \<Rightarrow> real_of_int (channel_sum a k) / real (w * h)
      | _ \<Rightarrow> 0)"

definition mean_channel_coverage :: "int ndarray \<Rightarrow> real" where
  "mean_channel_coverage a =
     (case shape a of
        [w, h, c] \<Rightarrow> (\<Sum>k\<leftarrow>[0..<c]. channel_coverage a k) / real c
      | _ \<Rightarrow> 0)"

definition two_channel_mask :: "int ndarray" where
  "two_channel_mask = \<lparr>shape = [2, 1, 2], data = [1, 0, 1, 1]\<rparr>"

section \<open>make\_gif\<close>

text \<open>
  \<^verbatim>\<open>
  def make_gif(eopatch, project_dir, filename, fps):
      with imageio.get_writer(os.path.join(project_dir, filename), mode='I', fps=fps) as writer:
              for image in eopatch:
                  writer.append_data(np.array(image[..., [2, 1, 0]], dtype=np.uint8))
  \<close>
\<close>














section \<open>The transform composer of the registration engine\<close>

text \<open>
  Modelled from the spec: the registration classes that the notebook imports from
  \<^verbatim>\<open>eolearn.coregistration\<close> are not among the sources, so the TransformComposer is
  written from Sections 3 and 4.2 of the specification.  A transform is a 3-by-3 matrix
  in homogeneous coordinates, given by its three rows.
\<close>

type_synonym vec3 = "real \<times> real \<times> real"
type_synonym transform = "vec3 \<times> vec3 \<times> vec3"

text \<open>Modelled from the spec: the identity matrix, the absolute transform of frame 0.\<close>

definition identity :: transform where
  "identity = ((1, 0, 0), (0, 1, 0), (0, 0, 1))"

text \<open>Modelled from the spec: composition is the product of homogeneous matrices.\<close>

fun mat_mul :: "transform \<Rightarrow> transform \<Rightarrow> transform" where
  "mat_mul ((a11, a12, a13), (a21, a22, a23), (a31, a32, a33))
           ((b11, b12, b13), (b21, b22, b23), (b31, b32, b33)) =
     ((a11 * b11 + a12 * b21 + a13 * b31,
       a11 * b12 + a12 * b22 + a13 * b32,
       a11 * b13 + a12 * b23 + a13 * b33),
      (a21 * b11 + a22 * b21 + a23 * b31,
       a21 * b12 + a22 * b22 + a23 * b32,
       a21 * b13 + a22 * b23 + a23 * b33),
      (a31 * b11 + a32 * b21 + a33 * b31,
       a31 * b12 + a32 * b22 + a33 * b32,
       a31 * b13 + a32 * b23 + a33 * b33))"

text \<open>
  Modelled from the spec: the composer takes the pairwise transforms of consecutive
  frames (frame \<open>i\<close> to frame \<open>i + 1\<close>) in order and runs one sequential scan over them,
  starting from the identity and multiplying the running absolute transform by the
  next pairwise transform on the right.
\<close>

fun scan_transforms :: "transform \<Rightarrow> transform list \<Rightarrow> transform list" where
  "scan_transforms acc [] = [acc]"
| "scan_transforms acc (p # ps) = acc # scan_transforms (mat_mul acc p) ps"

definition compose_transforms :: "transform list \<Rightarrow> transform list" where
  "compose_transforms pairs = scan_transforms identity pairs"

text \<open>A translation by \<open>(dx, dy)\<close>, for evaluating examples.\<close>

definition translation :: "real \<Rightarrow> real \<Rightarrow> transform" where
  "translation dx dy = ((1, 0, dx), (0, 1, dy), (0, 0, 1))"

section \<open>The coverage that MaxCCPredicate computes\<close>

lemma sum_group:
  fixes f :: "nat \<Rightarrow> 'a::comm_monoid_add"
  shows "(\<Sum>n<m * c. f n) = (\<Sum>p<m. \<Sum>k<c. f (p * c + k))"
proof -
  have "(\<Sum>k<c. f (p * c + k)) = sum f {p * c ..< p * c + c}" for p
    using sum.shift_bounds_nat_ivl [of f 0 "p * c" c]
    by (simp add: atLeast0LessThan add.commute)
  then show ?thesis
    using sum.nat_group [of f c m] by simp
qed

lemma sum_list_upt_sum:
  fixes f :: "nat \<Rightarrow> 'a::comm_monoid_add"
  shows "(\<Sum>i\<leftarrow>[0..<n]. f i) = (\<Sum>i<n. f i)"
  by (simp add: interv_sum_list_conv_sum_set_nat atLeast0LessThan)

lemma sum_list_channels:
  fixes xs :: "int list"
  assumes "length xs = w * h * c"
  shows "sum_list xs = (\<Sum>k<c. \<Sum>i<w. \<Sum>j<h. xs ! ((i * h + j) * c + k))"
proof -
  have "sum_list xs = (\<Sum>n<w * h * c. xs ! n)"
    using assms by (simp add: sum_list_sum_nth atLeast0LessThan)
  also have "\<dots> = (\<Sum>p<w * h. \<Sum>k<c. xs ! (p * c + k))"
    by (rule sum_group)
  also have "\<dots> = (\<Sum>i<w. \<Sum>j<h. \<Sum>k<c. xs ! ((i * h + j) * c + k))"
    by (rule sum_group)
  also have "\<dots> = (\<Sum>i<w. \<Sum>k<c. \<Sum>j<h. xs ! ((i * h + j) * c + k))"
    by (rule sum.cong [OF refl]) (rule sum.swap)
  also have "\<dots> = (\<Sum>k<c. \<Sum>i<w. \<Sum>j<h. xs ! ((i * h + j) * c + k))"
    by (rule sum.swap)
  finally show ?thesis .
qed

lemma element_sum_channels:
  assumes "well_formed a" "shape a = [w, h, c]"
  shows "element_sum a = (\<Sum>k<c. channel_sum a k)"
proof -
  have "length (data a) = w * h * c"
    using assms by (simp add: well_formed_def)
  then show ?thesis
    using assms(2)
    by (simp add: element_sum_def channel_sum_def sum_list_channels sum_list_upt_sum)
qed

lemma coverage_channels:
  assumes "well_formed a" "shape a = [w, h, c]"
  shows "real_of_int (element_sum a) / real (w * h)
           = (\<Sum>k\<leftarrow>[0..<c]. channel_coverage a k)"
proof -
  have "(\<Sum>k\<leftarrow>[0..<c]. channel_coverage a k)
          = (\<Sum>k<c. real_of_int (channel_sum a k) / real (w * h))"
    using assms(2) by (simp add: channel_coverage_def sum_list_upt_sum)
  also have "\<dots> = real_of_int (\<Sum>k<c. channel_sum a k) / real (w * h)"
    by (simp add: sum_divide_distrib)
  finally show ?thesis
    using element_sum_channels [OF assms] by simp
qed

lemma quotient_eq_mean_iff:
  fixes q :: real
  assumes "0 < c"
  shows "q = q / real c \<longleftrightarrow> c = 1 \<or> q = 0"
proof -
  have "q = q / real c \<longleftrightarrow> q * real c = q"
    using assms by (simp add: field_simps)
  also have "\<dots> \<longleftrightarrow> q * (real c - 1) = 0"
    by (simp add: algebra_simps)
  also have "\<dots> \<longleftrightarrow> c = 1 \<or> q = 0"
    by auto
  finally show ?thesis .
qed

lemma sum_list_word_of_int:
  "sum_list (map word_of_int xs) = (word_of_int (sum_list xs) :: 64 word)"
  by (induction xs) simp_all

lemma sint_word_of_int_exact:
  assumes "- (2 ^ 63) \<le> k" "k < 2 ^ 63"
  shows "sint (word_of_int k :: 64 word) = k"
proof -
  have "0 \<le> k + 2 ^ 63" "k + 2 ^ 63 < 2 ^ 64"
    using assms by simp_all
  then have "(k + 2 ^ 63) mod 2 ^ 64 = k + 2 ^ 63"
    by simp
  then show ?thesis
    by (simp add: int_word_sint)
qed

lemma np_sum_exact:
  assumes "\<bar>element_sum a\<bar> \<le> 2 ^ 53"
  shows "np_sum a = element_sum a"
proof -
  have "(2::int) ^ 53 < 2 ^ 63"
    by simp
  then have "- (2 ^ 63) \<le> element_sum a" "element_sum a < 2 ^ 63"
    using assms by linarith+
  then have "sint (word_of_int (element_sum a) :: 64 word) = element_sum a"
    by (rule sint_word_of_int_exact)
  then show ?thesis
    by (simp add: np_sum_def element_sum_def sum_list_word_of_int)
qed

text \<open>
  Claim C9.  For a cloud mask of shape \<open>(w, h, c)\<close>, \<^verbatim>\<open>MaxCCPredicate(maxcc)\<close> returns
  true exactly when the sum of all elements, over all \<open>c\<close> channels, divided by \<open>w * h\<close>
  is at most \<open>maxcc\<close> (for a mask with no pixel the quotient is NaN and the answer is
  false).  The divisor ignores the channel count: the quotient is the sum of the
  per-channel coverages, and it equals their mean only for a single channel or a mask
  whose elements sum to zero.  This holds for a mask whose element sum and pixel count
  are at most \<open>2 ^ 53\<close> in magnitude, as for every mask of zeros and ones that fits in
  memory: then the accumulator does not wrap and both operands of the division are
  doubles already.  It holds for every rounding \<open>fl\<close> that leaves such integers alone.
\<close>

theorem MaxCCPredicate_call_coverage:
  assumes "well_formed img_cm" and "shape img_cm = [w, h, c]"
    and exact: "\<forall>z::int. \<bar>z\<bar> \<le> 2 ^ 53 \<longrightarrow> fl (real_of_int z) = real_of_int z"
    and sum_bound: "\<bar>element_sum img_cm\<bar> \<le> 2 ^ 53"
    and pixel_bound: "w * h \<le> 2 ^ 53"
  shows "np_sum img_cm = element_sum img_cm
       \<and> MaxCCPredicate_call fl (MaxCCPredicate_init m) img_cm
           = Inr (0 < w * h \<and> fl (real_of_int (element_sum img_cm) / real (w * h)) \<le> m)
       \<and> (0 < w * h \<longrightarrow>
            real_of_int (element_sum img_cm) / real (w * h)
              = (\<Sum>k\<leftarrow>[0..<c]. channel_coverage img_cm k)
          \<and> (0 < c \<longrightarrow>
               ((\<Sum>k\<leftarrow>[0..<c]. channel_coverage img_cm k) = mean_channel_coverage img_cm
                  \<longleftrightarrow> c = 1 \<or> element_sum img_cm = 0)))"
proof -
  define q where "q = real_of_int (element_sum img_cm) / real (w * h)"
  have acc: "np_sum img_cm = element_sum img_cm"
    using sum_bound by (rule np_sum_exact)
  have num: "fl (real_of_int (element_sum img_cm)) = real_of_int (element_sum img_cm)"
    using exact sum_bound by blast
  have "\<bar>int (w * h)\<bar> \<le> 2 ^ 53"
    using pixel_bound by (simp add: of_nat_le_iff [of "w * h" "2 ^ 53", where ?'a = int, simplified])
  then have "fl (real_of_int (int (w * h))) = real_of_int (int (w * h))"
    using exact by blast
  then have den: "fl (real (w * h)) = real (w * h)"
    by simp
  have empty: "element_sum img_cm = 0" if "w * h = 0"
    using that assms(1,2) by (auto simp: well_formed_def element_sum_def)
  have answer: "MaxCCPredicate_call fl (MaxCCPredicate_init m) img_cm
                  = Inr (0 < w * h \<and> fl q \<le> m)"
  proof (cases "w * h = 0")
    case True
    then show ?thesis
      using assms(2) empty [OF True] acc
      by (auto simp: MaxCCPredicate_call_def MaxCCPredicate_init_def true_divide_def)
  next
    case False
    have "true_divide fl (np_sum img_cm) (w * h) = Finite (fl q)"
      using False unfolding true_divide_def acc num den q_def by simp
    then show ?thesis
      using False assms(2)
      by (simp add: MaxCCPredicate_call_def MaxCCPredicate_init_def)
  qed
  have total: "(\<Sum>k\<leftarrow>[0..<c]. channel_coverage img_cm k) = q"
    unfolding q_def by (rule coverage_channels [OF assms(1,2), symmetric])
  have mean: "mean_channel_coverage img_cm = q / real c"
    using assms(2) total by (simp add: mean_channel_coverage_def)
  have iff: "(\<Sum>k\<leftarrow>[0..<c]. channel_coverage img_cm k) = mean_channel_coverage img_cm
               \<longleftrightarrow> c = 1 \<or> element_sum img_cm = 0"
    if "0 < w * h" "0 < c"
  proof -
    have zero: "q = 0 \<longleftrightarrow> element_sum img_cm = 0"
      unfolding q_def using that(1) by simp
    have "q = q / real c \<longleftrightarrow> c = 1 \<or> q = 0"
      using that(2) by (rule quotient_eq_mean_iff)
    then show ?thesis
      unfolding total mean zero .
  qed
  show ?thesis
  proof (intro conjI impI)
    show "np_sum img_cm = element_sum img_cm"
      by (rule acc)
    show "MaxCCPredicate_call fl (MaxCCPredicate_init m) img_cm
            = Inr (0 < w * h \<and> fl (real_of_int (element_sum img_cm) / real (w * h)) \<le> m)"
      using answer unfolding q_def .
    show "real_of_int (element_sum img_cm) / real (w * h)
            = (\<Sum>k\<leftarrow>[0..<c]. channel_coverage img_cm k)"
      using total unfolding q_def by (rule sym)
  next
    assume "0 < w * h" "0 < c"
    then show "(\<Sum>k\<leftarrow>[0..<c]. channel_coverage img_cm k) = mean_channel_coverage img_cm
                 \<longleftrightarrow> c = 1 \<or> element_sum img_cm = 0"
      by (rule iff)
  qed
qed

text \<open>
  A mask of two pixels and two channels with three elements set: the channel coverages
  are 1 and 1/2, the predicate computes 3/2 and rejects the frame at \<open>maxcc = 1\<close>, while
  the mean coverage 3/4 would pass.
\<close>

theorem MaxCCPredicate_call_coverage_witness:
  "well_formed two_channel_mask \<and> shape two_channel_mask = [2, 1, 2]
   \<and> \<bar>element_sum two_channel_mask\<bar> \<le> 2 ^ 53 \<and> (2::nat) * 1 \<le> 2 ^ 53
   \<and> np_sum two_channel_mask = 3
   \<and> MaxCCPredicate_call (\<lambda>x. x) (MaxCCPredicate_init 1) two_channel_mask = Inr False
   \<and> (\<Sum>k\<leftarrow>[0..<2]. channel_coverage two_channel_mask k) = 3 / 2
   \<and> (\<Sum>k\<leftarrow>[0..<2]. channel_coverage two_channel_mask k) \<noteq> mean_channel_coverage two_channel_mask"
proof -
  have wf: "well_formed two_channel_mask"
    by (simp add: well_formed_def two_channel_mask_def)
  have sh: "shape two_channel_mask = [2, 1, 2]"
    by (simp add: two_channel_mask_def)
  have s: "element_sum two_channel_mask = 3"
    by (simp add: element_sum_def two_channel_mask_def)
  have ex: "\<forall>z::int. \<bar>z\<bar> \<le> 2 ^ 53 \<longrightarrow> (\<lambda>x::real. x) (real_of_int z) = real_of_int z"
    by simp
  have sb: "\<bar>element_sum two_channel_mask\<bar> \<le> 2 ^ 53"
    unfolding s by simp
  have pb: "(2::nat) * 1 \<le> 2 ^ 53"
    by simp
  have pixels: "(0::nat) < 2 * 1" and channels: "(0::nat) < 2"
    by simp_all
  note c9 = MaxCCPredicate_call_coverage [OF wf sh ex sb pb, of 1]
  note cov = c9 [THEN conjunct2, THEN conjunct2, rule_format, OF pixels]
  have "np_sum two_channel_mask = 3"
    using c9 [THEN conjunct1] s by simp
  moreover have "MaxCCPredicate_call (\<lambda>x. x) (MaxCCPredicate_init 1) two_channel_mask = Inr False"
    using c9 [THEN conjunct2, THEN conjunct1] s by simp
  moreover have "(\<Sum>k\<leftarrow>[0..<2]. channel_coverage two_channel_mask k) = 3 / 2"
    using cov [THEN conjunct1] s by simp
  moreover have "(\<Sum>k\<leftarrow>[0..<2]. channel_coverage two_channel_mask k)
                   \<noteq> mean_channel_coverage two_channel_mask"
    using cov [THEN conjunct2, rule_format, OF channels] s by simp
  ultimately show ?thesis
    using wf sh sb pb by blast
qed

section \<open>The frames that make\_gif writes\<close>























section \<open>The recurrence of the transform composer\<close>

lemma scan_transforms_length:
  "length (scan_transforms acc ps) = Suc (length ps)"
  by (induction ps arbitrary: acc) simp_all

lemma scan_transforms_first:
  "scan_transforms acc ps ! 0 = acc"
  by (cases ps) simp_all

lemma scan_transforms_step:
  "i < length ps \<Longrightarrow>
     scan_transforms acc ps ! Suc i = mat_mul (scan_transforms acc ps ! i) (ps ! i)"
proof (induction ps arbitrary: acc i)
  case Nil
  then show ?case by simp
next
  case (Cons p ps)
  show ?case
  proof (cases i)
    case 0
    then show ?thesis
      by (simp add: scan_transforms_first)
  next
    case (Suc j)
    then have "j < length ps"
      using Cons.prems by simp
    then show ?thesis
      using Cons.IH [of j "mat_mul acc p"] Suc by simp
  qed
qed

text \<open>
  Claim C1.  From the \<open>N - 1\<close> pairwise transforms of an \<open>N\<close>-frame stack the composer
  produces exactly \<open>N\<close> absolute transforms; the first is the identity, and each later one
  is its predecessor multiplied by the pairwise transform between the two frames.
\<close>

theorem compose_transforms_recurrence:
  assumes "0 < N" and "length pairs = N - 1"
  shows "length (compose_transforms pairs) = N
       \<and> compose_transforms pairs ! 0 = identity
       \<and> (\<forall>i. 0 < i \<and> i < N \<longrightarrow>
            compose_transforms pairs ! i
              = mat_mul (compose_transforms pairs ! (i - 1)) (pairs ! (i - 1)))"
proof (intro conjI allI impI)
  show "length (compose_transforms pairs) = N"
    using assms by (simp add: compose_transforms_def scan_transforms_length)
  show "compose_transforms pairs ! 0 = identity"
    by (simp add: compose_transforms_def scan_transforms_first)
next
  fix i
  assume i: "0 < i \<and> i < N"
  then obtain j where j: "i = Suc j"
    by (cases i) auto
  then have "j < length pairs"
    using i assms(2) by simp
  then show "compose_transforms pairs ! i
               = mat_mul (compose_transforms pairs ! (i - 1)) (pairs ! (i - 1))"
    unfolding compose_transforms_def j by (simp add: scan_transforms_step)
qed

text \<open>
  Three frames, each shifted against the one before: by \<open>(3, -2)\<close>, then by \<open>(1, 4)\<close>.
  The third absolute transform is the shift by \<open>(4, 2)\<close>.
\<close>

theorem compose_transforms_recurrence_witness:
  "(0::nat) < 3 \<and> length [translation 3 (-2), translation 1 4] = 3 - 1
   \<and> length (compose_transforms [translation 3 (-2), translation 1 4]) = 3
   \<and> compose_transforms [translation 3 (-2), translation 1 4] ! 0 = identity
   \<and> compose_transforms [translation 3 (-2), translation 1 4] ! 2
        = mat_mul (compose_transforms [translation 3 (-2), translation 1 4] ! 1) (translation 1 4)
   \<and> compose_transforms [translation 3 (-2), translation 1 4] ! 2 = translation 4 2"
proof -
  have n: "(0::nat) < 3" and len: "length [translation 3 (-2), translation 1 4] = 3 - 1"
    by simp_all
  note c1 = compose_transforms_recurrence [OF n len]
  have step: "compose_transforms [translation 3 (-2), translation 1 4] ! 2
        = mat_mul (compose_transforms [translation 3 (-2), translation 1 4] ! 1) (translation 1 4)"
    using c1 [THEN conjunct2, THEN conjunct2, rule_format, of 2] by simp
  have "compose_transforms [translation 3 (-2), translation 1 4] ! 1 = translation 3 (-2)"
    using c1 [THEN conjunct2, THEN conjunct2, rule_format, of 1] c1 [THEN conjunct2, THEN conjunct1]
    by (simp add: identity_def translation_def)
  then have "compose_transforms [translation 3 (-2), translation 1 4] ! 2 = translation 4 2"
    using step by (simp add: translation_def)
  then show ?thesis
    using c1 [THEN conjunct1] c1 [THEN conjunct2, THEN conjunct1] step n len by blast
qed

end
